theory Spec2Isabelle
  imports Complex_Main "HOL-Library.Char_ord" "HOL-Library.List_Lexorder"
begin

section \<open>Python string primitives\<close>

text \<open>
  Strings are lists of characters with code points below 256. \<open>is_space\<close> is Python's
  \<open>str.isspace\<close> on that range; it is the predicate used both by \<open>str.split()\<close>
  (no argument) and by \<open>str.strip()\<close>.
\<close>

definition is_space :: "char \<Rightarrow> bool" where
  "is_space c = ((of_char c :: nat) \<in> {9, 10, 11, 12, 13, 28, 29, 30, 31, 32, 133, 160})"

text \<open>\<open>text.split("\n")\<close>: the pieces between newlines; never an empty list.\<close>

fun split_nl :: "string \<Rightarrow> string list" where
  "split_nl [] = [[]]"
| "split_nl (c # cs) =
     (if c = CHR 0x0A then [] # split_nl cs
      else (case split_nl cs of [] \<Rightarrow> [[c]] | p # ps \<Rightarrow> (c # p) # ps))"

text \<open>
  \<open>s.split()\<close>: the maximal runs of non-whitespace characters. \<open>split_aux w s\<close> scans
  \<open>s\<close> with the word \<open>w\<close> read so far.
\<close>

fun split_aux :: "string \<Rightarrow> string \<Rightarrow> string list" where
  "split_aux w [] = (if w = [] then [] else [w])"
| "split_aux w (c # cs) =
     (if is_space c then (if w = [] then split_aux [] cs else w # split_aux [] cs)
      else split_aux (w @ [c]) cs)"

definition split_ws :: "string \<Rightarrow> string list" where
  "split_ws s = split_aux [] s"

definition word_count :: "string \<Rightarrow> nat" where
  "word_count s = length (split_ws s)"

text \<open>\<open>s.strip()\<close>: leading and trailing whitespace removed.\<close>

definition strip :: "string \<Rightarrow> string" where
  "strip s = rev (dropWhile is_space (rev (dropWhile is_space s)))"

text \<open>\<open>sep.join(xs)\<close>.\<close>

fun join :: "string \<Rightarrow> string list \<Rightarrow> string" where
  "join sep [] = []"
| "join sep [x] = x"
| "join sep (x # y # ys) = x @ sep @ join sep (y # ys)"

text \<open>
  \<open>s.lower()\<close> on the letters that matter for the suffix test of the loader: no
  character outside \<open>A\<close>..\<open>Z\<close> lowers to one of \<open>.\<close>, \<open>h\<close>, \<open>t\<close>, \<open>m\<close>, \<open>l\<close>.
\<close>

definition lower_char :: "char \<Rightarrow> char" where
  "lower_char c =
     (case map_of (zip ''ABCDEFGHIJKLMNOPQRSTUVWXYZ'' ''abcdefghijklmnopqrstuvwxyz'') c of
        Some d \<Rightarrow> d | None \<Rightarrow> c)"

definition lower :: "string \<Rightarrow> string" where
  "lower s = map lower_char s"

definition endswith :: "string \<Rightarrow> string \<Rightarrow> bool" where
  "endswith s suffix =
     (length suffix \<le> length s \<and> drop (length s - length suffix) s = suffix)"

text \<open>\<open>os.path.join\<close> and \<open>os.path.basename\<close>, with \<open>/\<close> as the separator.\<close>

definition path_join :: "string \<Rightarrow> string \<Rightarrow> string" where
  "path_join root_dir file =
     (if file \<noteq> [] \<and> hd file = CHR ''/'' then file
      else if root_dir = [] \<or> last root_dir = CHR ''/'' then root_dir @ file
      else root_dir @ ''/'' @ file)"

definition basename :: "string \<Rightarrow> string" where
  "basename p = rev (takeWhile (\<lambda>c. c \<noteq> CHR ''/'') (rev p))"

section \<open>Exceptions\<close>

text \<open>
  Every exception of the model is an instance of Python's \<open>Exception\<close>; \<open>except
  ValueError\<close> catches the class \<open>ValueError\<close> only, \<open>except Exception\<close> catches all of
  them. \<open>exn_str\<close> is \<open>str(e)\<close>. A raising call returns \<open>Inl\<close>.
\<close>

datatype exn_class =
  ValueError | NotFoundError | OSError | AttributeError | IndexError | ConnectionError |
  RuntimeError

datatype exn = Exn exn_class string

fun exn_class_of :: "exn \<Rightarrow> exn_class" where
  "exn_class_of (Exn c msg) = c"

fun exn_str :: "exn \<Rightarrow> string" where
  "exn_str (Exn c msg) = msg"

section \<open>config/settings.py\<close>

definition COLLECTION_NAME :: string where
  "COLLECTION_NAME = ''local_docs''"

definition CHUNK_SIZE_TOKENS :: int where
  "CHUNK_SIZE_TOKENS = 400"

definition EMBEDDING_MODEL :: string where
  "EMBEDDING_MODEL = ''nomic-embed-text''"

definition LLM_MODEL :: string where
  "LLM_MODEL = ''gemma:2b''"

section \<open>backend/ingest\_docs.py: clean\_html\<close>

text \<open>
  The parse tree of BeautifulSoup (a library outside the repository): a node is a text
  node or a tag with a name and its contents. The parser itself (\<open>html.parser\<close>) is a
  parameter of the model; the operations on the tree that \<open>clean_html\<close> uses follow the
  library: \<open>decompose\<close>, the first tag of a name, \<open>.string\<close> and \<open>get_text\<close>.
\<close>

datatype node = NavigableString string | Tag string "node list"

text \<open>\<open>decompose()\<close> on every tag whose name is in \<open>names\<close>: the tag and all below it go.\<close>

fun decompose :: "string list \<Rightarrow> node \<Rightarrow> node list" where
  "decompose names (NavigableString s) = [NavigableString s]"
| "decompose names (Tag name contents) =
     (if name \<in> set names then []
      else [Tag name (concat (map (decompose names) contents))])"

fun first_some :: "'a option list \<Rightarrow> 'a option" where
  "first_some [] = None"
| "first_some (None # xs) = first_some xs"
| "first_some (Some x # xs) = Some x"

text \<open>
  \<open>soup.title\<close> is the first tag named \<open>title\<close> in document order (its contents are
  returned), or \<open>None\<close>. A tag is truthy whatever its contents.
\<close>

fun find_tag :: "string \<Rightarrow> node \<Rightarrow> node list option" where
  "find_tag name (NavigableString s) = None"
| "find_tag name (Tag n contents) =
     (if n = name then Some contents else first_some (map (find_tag name) contents))"

text \<open>
  \<open>tag.string\<close>: the single text child, or the \<open>.string\<close> of the single tag child;
  \<open>None\<close> when the tag has no child or more than one.
\<close>

fun tag_string :: "node list \<Rightarrow> string option" where
  "tag_string [NavigableString s] = Some s"
| "tag_string [Tag n contents] = tag_string contents"
| "tag_string contents = None"

fun all_strings :: "node \<Rightarrow> string list" where
  "all_strings (NavigableString s) = [s]"
| "all_strings (Tag n contents) = concat (map all_strings contents)"

text \<open>\<open>soup.get_text(separator="\n", strip=True)\<close>.\<close>

definition get_text :: "node list \<Rightarrow> string" where
  "get_text soup =
     join [CHR 0x0A] (filter (\<lambda>s. s \<noteq> []) (map strip (concat (map all_strings soup))))"

text \<open>The exception raised by \<open>None.strip()\<close>.\<close>

definition none_has_no_strip :: exn where
  "none_has_no_strip =
     Exn AttributeError (CHR 0x27 # ''NoneType' object has no attribute 'strip'' @ [CHR 0x27])"

text \<open>
  The statements of \<open>clean_html\<close> in order: parse, decompose the \<open>script\<close> and
  \<open>style\<close> tags, take the title, take the text. The conditional expression tests the
  title tag only; \<open>.string.strip()\<close> is evaluated whenever the tag is there.
\<close>

definition clean_html :: "(string \<Rightarrow> node list) \<Rightarrow> string \<Rightarrow> exn + (string \<times> string)" where
  "clean_html parser html_content =
     (let soup = concat (map (decompose [''script'', ''style'']) (parser html_content))
      in case first_some (map (find_tag ''title'') soup) of
           None \<Rightarrow> Inr (''Untitled Document'', get_text soup)
         | Some contents \<Rightarrow>
             (case tag_string contents of
                None \<Rightarrow> Inl none_has_no_strip
              | Some s \<Rightarrow> Inr (strip s, get_text soup)))"

section \<open>backend/ingest\_docs.py: chunk\_text\<close>

text \<open>
  The loop over the paragraphs carries \<open>chunks\<close> and \<open>current_chunk\<close>; \<open>max_tokens\<close>
  is a Python integer.
\<close>

fun chunk_loop :: "int \<Rightarrow> string list \<Rightarrow> string list \<Rightarrow> string \<Rightarrow> string list \<times> string" where
  "chunk_loop max_tokens [] chunks current_chunk = (chunks, current_chunk)"
| "chunk_loop max_tokens (para # paragraphs) chunks current_chunk =
     (if int (length (split_ws current_chunk)) + int (length (split_ws para)) < max_tokens
      then chunk_loop max_tokens paragraphs chunks (current_chunk @ para @ [CHR 0x0A])
      else chunk_loop max_tokens paragraphs (chunks @ [strip current_chunk]) (para @ [CHR 0x0A]))"

definition chunk_text :: "string \<Rightarrow> int \<Rightarrow> string list" where
  "chunk_text text max_tokens =
     (case chunk_loop max_tokens (split_nl text) [] [] of
        (chunks, current_chunk) \<Rightarrow>
          if strip current_chunk \<noteq> [] then chunks @ [strip current_chunk] else chunks)"

text \<open>
  Invariants of the loop, used in the proofs, for a set \<open>P\<close> of paragraphs: the buffer
  is empty or ends with a newline, and it is below the bound unless it is empty or holds
  exactly one paragraph of \<open>P\<close>; a flushed chunk is below the bound unless it is empty
  or a single trimmed paragraph of \<open>P\<close>.
\<close>

definition buffer_ok :: "string set \<Rightarrow> int \<Rightarrow> string \<Rightarrow> bool" where
  "buffer_ok P m cur =
     ((cur = [] \<or> last cur = CHR 0x0A) \<and>
      (int (word_count cur) < m \<or> cur = [] \<or> butlast cur \<in> P))"

definition chunk_ok :: "string set \<Rightarrow> int \<Rightarrow> string \<Rightarrow> bool" where
  "chunk_ok P m c = (int (word_count c) < m \<or> c = [] \<or> (\<exists>p\<in>P. c = strip p))"

section \<open>The vector index, the model services and the file system\<close>

type_synonym embedding = "real list"

type_synonym metadata = "string \<rightharpoonup> string"

type_synonym stream = "string list"

record item =
  item_id :: string
  item_embedding :: embedding
  item_document :: string
  item_metadata :: metadata

text \<open>The dictionary returned by \<open>collection.query\<close>: one list per query of the batch.\<close>

record query_result =
  ids :: "string list list"
  documents :: "string list list"
  metadatas :: "metadata list list"

text \<open>The dictionary \<open>{"document": doc, "metadata": meta}\<close> built by the search.\<close>

record retrieved =
  document :: string
  metadata :: metadata

text \<open>
  What the program does not own: the directory listing of \<open>os.walk\<close> (root and file
  names), reading a file, the HTML parser, the embedding and chat calls of Ollama, the
  identifier source, and the ways the index can fail (opening the client, the similarity
  search, the write) together with its similarity metric, and the exceptions the index
  client raises for a collection that is missing or already there. Their classes are
  not given by the specification and differ between releases of the library, so they
  are inputs of the model.
\<close>

record env =
  walk :: "string \<Rightarrow> (string \<times> string list) list"
  read_file :: "string \<Rightarrow> exn + string"
  html_parser :: "string \<Rightarrow> node list"
  embeddings :: "string \<Rightarrow> string \<Rightarrow> exn + embedding"
  chat :: "string \<Rightarrow> string \<Rightarrow> exn + stream"
  uuid4 :: "nat \<Rightarrow> string"
  client_fault :: "exn option"
  query_fault :: "embedding \<Rightarrow> exn option"
  add_fault :: "item list \<Rightarrow> exn option"
  distance :: "embedding \<Rightarrow> embedding \<Rightarrow> real"
  missing_collection :: "string \<Rightarrow> exn"
  existing_collection :: "string \<Rightarrow> exn"

text \<open>
  The mutable world: the collections persisted under the index path, and a log of the
  calls made to the two model services and of the writes to the index.
\<close>

record world =
  collections :: "string \<rightharpoonup> item list"
  embed_calls :: "string list"
  chat_calls :: "string list"
  index_writes :: nat
  uuids_drawn :: nat

text \<open>
  Modelled from the spec: the vector index service (ChromaDB, a library outside the
  repository), by the operations the program calls and the contract the specification
  gives for them (upsert, a query ranked by similarity and possibly empty, count, create
  and delete by name). \<open>get_collection\<close> and \<open>delete_collection\<close> raise on a missing
  collection and \<open>create_collection\<close> on an existing one; which exception they raise is
  taken from the environment. A query ranks the items of the collection by their
  distance to the query embedding and returns the first \<open>n_results\<close>, one list per query
  of the batch; it may raise.
\<close>

definition PersistentClient :: "env \<Rightarrow> exn + unit" where
  "PersistentClient e = (case client_fault e of Some x \<Rightarrow> Inl x | None \<Rightarrow> Inr ())"

definition get_collection :: "env \<Rightarrow> world \<Rightarrow> string \<Rightarrow> exn + item list" where
  "get_collection e w name =
     (case collections w name of
        None \<Rightarrow> Inl (missing_collection e name)
      | Some items \<Rightarrow> Inr items)"

definition delete_collection :: "env \<Rightarrow> world \<Rightarrow> string \<Rightarrow> exn + world" where
  "delete_collection e w name =
     (case collections w name of
        None \<Rightarrow> Inl (missing_collection e name)
      | Some items \<Rightarrow> Inr (w\<lparr>collections := (collections w)(name := None)\<rparr>))"

definition create_collection :: "env \<Rightarrow> world \<Rightarrow> string \<Rightarrow> exn + world" where
  "create_collection e w name =
     (case collections w name of
        Some items \<Rightarrow> Inl (existing_collection e name)
      | None \<Rightarrow> Inr (w\<lparr>collections := (collections w)(name \<mapsto> [])\<rparr>))"

definition get_or_create_collection :: "world \<Rightarrow> string \<Rightarrow> world" where
  "get_or_create_collection w name =
     (case collections w name of
        Some items \<Rightarrow> w
      | None \<Rightarrow> w\<lparr>collections := (collections w)(name \<mapsto> [])\<rparr>)"

definition collection_count :: "env \<Rightarrow> world \<Rightarrow> string \<Rightarrow> exn + nat" where
  "collection_count e w name =
     (case get_collection e w name of Inl x \<Rightarrow> Inl x | Inr items \<Rightarrow> Inr (length items))"

definition collection_query :: "env \<Rightarrow> item list \<Rightarrow> embedding \<Rightarrow> nat \<Rightarrow> exn + query_result" where
  "collection_query e items query_embedding n_results =
     (case query_fault e query_embedding of
        Some x \<Rightarrow> Inl x
      | None \<Rightarrow>
          (let hits = take n_results
                 (sort_key (\<lambda>it. distance e query_embedding (item_embedding it)) items)
           in Inr \<lparr>ids = [map item_id hits],
                   documents = [map item_document hits],
                   metadatas = [map item_metadata hits]\<rparr>))"

definition collection_add :: "env \<Rightarrow> world \<Rightarrow> string \<Rightarrow> item list \<Rightarrow> exn + world" where
  "collection_add e w name new_items =
     (case add_fault e new_items of
        Some x \<Rightarrow> Inl x
      | None \<Rightarrow>
          (case collections w name of
             None \<Rightarrow> Inl (missing_collection e name)
           | Some items \<Rightarrow>
               Inr (w\<lparr>collections := (collections w)(name \<mapsto> items @ new_items),
                      index_writes := Suc (index_writes w)\<rparr>)))"

section \<open>backend/vector\_db.py\<close>

definition index0 :: "'a list \<Rightarrow> exn + 'a" where
  "index0 xs = (case xs of [] \<Rightarrow> Inl (Exn IndexError ''list index out of range'') | x # _ \<Rightarrow> Inr x)"

text \<open>The body of the \<open>try\<close> block of \<open>search_vector_db\<close>.\<close>

definition search_try :: "env \<Rightarrow> world \<Rightarrow> embedding \<Rightarrow> nat \<Rightarrow> exn + retrieved list" where
  "search_try e w query_embedding top_k =
     (case PersistentClient e of
        Inl x \<Rightarrow> Inl x
      | Inr client \<Rightarrow>
     (case get_collection e w COLLECTION_NAME of
        Inl x \<Rightarrow> Inl x
      | Inr collection \<Rightarrow>
     (case collection_query e collection query_embedding top_k of
        Inl x \<Rightarrow> Inl x
      | Inr results \<Rightarrow>
          if (case ids results of [] \<Rightarrow> False | first # _ \<Rightarrow> first \<noteq> [])
          then (case index0 (documents results) of
                  Inl x \<Rightarrow> Inl x
                | Inr docs \<Rightarrow>
               (case index0 (metadatas results) of
                  Inl x \<Rightarrow> Inl x
                | Inr metas \<Rightarrow>
                    Inr (map (\<lambda>(doc, meta). \<lparr>document = doc, metadata = meta\<rparr>)
                           (zip docs metas))))
          else Inr [])))"

text \<open>The two handlers: \<open>except ValueError\<close>, then \<open>except Exception\<close>; both return \<open>[]\<close>.\<close>

definition search_vector_db :: "env \<Rightarrow> world \<Rightarrow> embedding \<Rightarrow> nat \<Rightarrow> exn + retrieved list" where
  "search_vector_db e w query_embedding top_k =
     (case search_try e w query_embedding top_k of
        Inl x \<Rightarrow> (if exn_class_of x = ValueError then Inr [] else Inr [])
      | Inr retrieved_docs \<Rightarrow> Inr retrieved_docs)"

text \<open>
  The status string returned by \<open>clear_database_collection\<close>: cleared successfully,
  nothing to clear (the informational message), or an error with its text.
\<close>

datatype clear_message = Cleared | NothingToClear | ClearError string

definition clear_handler :: "exn \<Rightarrow> clear_message" where
  "clear_handler x =
     (if exn_class_of x = ValueError then NothingToClear else ClearError (exn_str x))"

definition clear_database_collection :: "env \<Rightarrow> world \<Rightarrow> clear_message \<times> world" where
  "clear_database_collection e w =
     (case PersistentClient e of
        Inl x \<Rightarrow> (ClearError (exn_str x), w)
      | Inr client \<Rightarrow>
     (case get_collection e w COLLECTION_NAME of
        Inl x \<Rightarrow> (clear_handler x, w)
      | Inr collection \<Rightarrow>
     (case delete_collection e w COLLECTION_NAME of
        Inl x \<Rightarrow> (clear_handler x, w)
      | Inr w1 \<Rightarrow>
     (case create_collection e w1 COLLECTION_NAME of
        Inl x \<Rightarrow> (clear_handler x, w1)
      | Inr w2 \<Rightarrow> (Cleared, w2)))))"

section \<open>backend/ingest\_docs.py: ingest\_directory\<close>

text \<open>
  A line of the run summary: the success line with the file name and the number of
  chunks, or the failure line with the file path and \<open>str(e)\<close>. The function returns
  the lines; joining them with newlines is not modelled.
\<close>

datatype summary_line = Indexed string nat | Failed string string

text \<open>The loop that embeds the chunks one by one; it stops at the first exception.\<close>

fun embed_chunks :: "env \<Rightarrow> string list \<Rightarrow> world \<Rightarrow> (exn + embedding list) \<times> world" where
  "embed_chunks e [] w = (Inr [], w)"
| "embed_chunks e (chunk # rest) w =
     (let w1 = w\<lparr>embed_calls := embed_calls w @ [chunk]\<rparr>
      in case embeddings e EMBEDDING_MODEL chunk of
           Inl x \<Rightarrow> (Inl x, w1)
         | Inr v \<Rightarrow>
             (case embed_chunks e rest w1 of
                (Inl x, w2) \<Rightarrow> (Inl x, w2)
              | (Inr vs, w2) \<Rightarrow> (Inr (v # vs), w2)))"

text \<open>The body of the \<open>try\<close> block for one file; \<open>Inr\<close> carries the summary.\<close>

definition ingest_try ::
  "env \<Rightarrow> string \<Rightarrow> string \<Rightarrow> string \<Rightarrow> summary_line list \<Rightarrow> world
     \<Rightarrow> (exn + summary_line list) \<times> world" where
  "ingest_try e file file_path html summary w =
     (case clean_html (html_parser e) html of
        Inl x \<Rightarrow> (Inl x, w)
      | Inr (title, text) \<Rightarrow>
          (let chunks = chunk_text text CHUNK_SIZE_TOKENS
           in if chunks = [] then (Inr summary, w)
              else
                (case embed_chunks e chunks w of
                   (Inl x, w1) \<Rightarrow> (Inl x, w1)
                 | (Inr doc_embeddings, w1) \<Rightarrow>
                     (let new_ids = map (uuid4 e) [uuids_drawn w1 ..< uuids_drawn w1 + length chunks];
                          w2 = w1\<lparr>uuids_drawn := uuids_drawn w1 + length chunks\<rparr>;
                          new_items =
                            map (\<lambda>(i, chunk, v).
                                   \<lparr>item_id = i, item_embedding = v, item_document = chunk,
                                    item_metadata = [''title'' \<mapsto> title, ''source_path'' \<mapsto> file_path]\<rparr>)
                              (zip new_ids (zip chunks doc_embeddings))
                      in case collection_add e w2 COLLECTION_NAME new_items of
                           Inl x \<Rightarrow> (Inl x, w2)
                         | Inr w3 \<Rightarrow> (Inr (summary @ [Indexed file (length chunks)]), w3)))))"

text \<open>
  One iteration of the inner loop. The file is opened and read before the \<open>try\<close>
  statement; an exception raised there leaves the loop (\<open>Inl\<close>).
\<close>

definition process_file ::
  "env \<Rightarrow> string \<Rightarrow> string \<Rightarrow> summary_line list \<times> world
     \<Rightarrow> exn + (summary_line list \<times> world)" where
  "process_file e root_dir file acc =
     (case acc of (summary, w) \<Rightarrow>
        if \<not> (endswith (lower file) ''.html'' \<or> endswith (lower file) ''.htm'')
        then Inr (summary, w)
        else
          (let file_path = path_join root_dir file
           in case read_file e file_path of
                Inl x \<Rightarrow> Inl x
              | Inr html \<Rightarrow>
                  (case ingest_try e file file_path html summary w of
                     (Inl x, w1) \<Rightarrow> Inr (summary @ [Failed file_path (exn_str x)], w1)
                   | (Inr summary1, w1) \<Rightarrow> Inr (summary1, w1))))"

fun process_files ::
  "env \<Rightarrow> string \<Rightarrow> string list \<Rightarrow> summary_line list \<times> world
     \<Rightarrow> exn + (summary_line list \<times> world)" where
  "process_files e root_dir [] acc = Inr acc"
| "process_files e root_dir (file # files) acc =
     (case process_file e root_dir file acc of
        Inl x \<Rightarrow> Inl x
      | Inr acc1 \<Rightarrow> process_files e root_dir files acc1)"

fun process_dirs ::
  "env \<Rightarrow> (string \<times> string list) list \<Rightarrow> summary_line list \<times> world
     \<Rightarrow> exn + (summary_line list \<times> world)" where
  "process_dirs e [] acc = Inr acc"
| "process_dirs e ((root_dir, files) # dirs) acc =
     (case process_files e root_dir files acc of
        Inl x \<Rightarrow> Inl x
      | Inr acc1 \<Rightarrow> process_dirs e dirs acc1)"

definition ingest_directory :: "env \<Rightarrow> world \<Rightarrow> string \<Rightarrow> exn + (summary_line list \<times> world)" where
  "ingest_directory e w folder_path =
     (case PersistentClient e of
        Inl x \<Rightarrow> Inl x
      | Inr client \<Rightarrow>
          process_dirs e (walk e folder_path) ([], get_or_create_collection w COLLECTION_NAME))"

section \<open>backend/rag\_pipeline.py\<close>

definition NO_DOCUMENTS_MESSAGE :: string where
  "NO_DOCUMENTS_MESSAGE =
     ''No relevant documents were found in the database. Please try rephrasing your question or ingesting more documents.''"

text \<open>
  \<open>RAG_PROMPT_TEMPLATE.format(context=..., query=...)\<close>: the fixed instruction text of
  the settings around the two substitution points.
\<close>

definition RAG_PROMPT_HEAD :: string where
  \<open>RAG_PROMPT_HEAD =
     ''\<newline>**ROLE:** You are an AI assistant for a salesperson who is on a live call with a customer.\<newline>''
     @ ''Your goal is to generate a concise, clean, plain-text response that the salesperson can read word-for-word to the customer.\<newline>''
     @ ''\<newline>**CRITICAL INSTRUCTIONS:**\<newline>''
     @ ''1.  **Base Your Answer on the Context:** Your entire answer MUST be derived exclusively from the [DOCUMENTATION CONTEXT] provided. Do not use any outside knowledge.\<newline>''
     @ ''2.  **No Formatting:** DO NOT use Markdown, HTML, bullet points, or any other special formatting. The output must be a single block of plain text.\<newline>''
     @ ''3.  **Stay in Character:** Do not break character. Do not explain your reasoning, mention the context, or refer to yourself as an AI.\<newline>''
     @ ''4.  **Be Direct and Professional:** Phrase the response as if you are the salesperson speaking directly to the customer.\<newline>''
     @ ''5.  **Handle Missing Information:** If the answer is not in the provided context, your entire response must be ONLY this exact phrase: "I'll need to follow up with you on that specific question."\<newline>''
     @ ''\<newline>---\<newline>[DOCUMENTATION CONTEXT]\<newline>''\<close>

definition format_prompt :: "string \<Rightarrow> string \<Rightarrow> string" where
  "format_prompt context_str query =
     RAG_PROMPT_HEAD @ context_str
     @ ''\<newline>---\<newline>[CUSTOMER'S QUESTION]\<newline>'' @ query
     @ ''\<newline>---\<newline>[YOUR RESPONSE (TO BE READ BY SALESPERSON)]\<newline>''"

text \<open>
  The loop that formats the sources: \<open>source_documents\<close> and \<open>seen_paths\<close> are its
  variables. A missing or empty \<open>source_path\<close> is falsy and is skipped.
\<close>

fun source_loop :: "retrieved list \<Rightarrow> string list \<Rightarrow> string set \<Rightarrow> string list" where
  "source_loop [] source_documents seen_paths = source_documents"
| "source_loop (chunk # rest) source_documents seen_paths =
     (case metadata chunk ''source_path'' of
        None \<Rightarrow> source_loop rest source_documents seen_paths
      | Some source_path \<Rightarrow>
          if source_path \<noteq> [] \<and> source_path \<notin> seen_paths
          then source_loop rest (source_documents @ [basename source_path])
                 (insert source_path seen_paths)
          else source_loop rest source_documents seen_paths)"

definition sources_text_of :: "string list \<Rightarrow> string" where
  "sources_text_of source_documents =
     ''### Retrieved Sources:\<newline>''
     @ join [CHR 0x0A] (map (\<lambda>doc. ''- '' @ doc) (sort source_documents))"

text \<open>
  The result is the pair \<open>(stream or None, text)\<close>, or the exception that leaves the
  function; the world carries the log of the service calls made.
\<close>

definition get_rag_response_stream ::
  "env \<Rightarrow> world \<Rightarrow> string \<Rightarrow> (exn + (stream option \<times> string)) \<times> world" where
  "get_rag_response_stream e w query =
     (let w1 = w\<lparr>embed_calls := embed_calls w @ [query]\<rparr>
      in case embeddings e EMBEDDING_MODEL query of
           Inl x \<Rightarrow> (Inl x, w1)
         | Inr query_embedding \<Rightarrow>
        (case search_vector_db e w1 query_embedding 5 of
           Inl x \<Rightarrow> (Inl x, w1)
         | Inr retrieved_chunks \<Rightarrow>
             if retrieved_chunks = [] then (Inr (None, NO_DOCUMENTS_MESSAGE), w1)
             else
               (let source_documents = source_loop retrieved_chunks [] {};
                    sources_text = sources_text_of source_documents;
                    context_str =
                      join [CHR 0x0A, CHR 0x0A, CHR ''-'', CHR ''-'', CHR ''-'', CHR 0x0A, CHR 0x0A]
                        (map document retrieved_chunks);
                    final_prompt = format_prompt context_str query;
                    w2 = w1\<lparr>chat_calls := chat_calls w1 @ [final_prompt]\<rparr>
                in case chat e LLM_MODEL final_prompt of
                     Inl x \<Rightarrow> (Inl x, w2)
                   | Inr llm_stream \<Rightarrow> (Inr (Some llm_stream, sources_text), w2))))"

text \<open>
  The citation list in the words of the specification: the first occurrence of each
  distinct source path in rank order, the base name of each, sorted.
\<close>

fun keep_first :: "'a list \<Rightarrow> 'a list" where
  "keep_first [] = []"
| "keep_first (x # xs) = x # keep_first (removeAll x xs)"

definition source_paths :: "retrieved list \<Rightarrow> string list" where
  "source_paths chunks =
     filter (\<lambda>p. p \<noteq> []) (List.map_filter (\<lambda>chunk. metadata chunk ''source_path'') chunks)"

definition citation_list :: "string list \<Rightarrow> string list" where
  "citation_list paths = sort (map basename (keep_first paths))"

section \<open>Concrete inputs\<close>

text \<open>
  A small index with three passages from two files, ranked in this order by a constant
  metric, and an index client that raises \<open>NotFoundError\<close> for a missing collection;
  a directory \<open>docs\<close> with a page whose title element is empty, a text file and
  a page with a blank body; services that answer; and variants in which the embedding
  service is unreachable or the first page cannot be read.
\<close>

definition demo_items :: "item list" where
  "demo_items =
     [\<lparr>item_id = ''id-0'', item_embedding = [1], item_document = ''first passage'',
       item_metadata = [''title'' \<mapsto> ''B'', ''source_path'' \<mapsto> ''b/doc.html'']\<rparr>,
      \<lparr>item_id = ''id-1'', item_embedding = [2], item_document = ''second passage'',
       item_metadata = [''title'' \<mapsto> ''A'', ''source_path'' \<mapsto> ''a/doc.html'']\<rparr>,
      \<lparr>item_id = ''id-2'', item_embedding = [3], item_document = ''third passage'',
       item_metadata = [''title'' \<mapsto> ''A'', ''source_path'' \<mapsto> ''a/doc.html'']\<rparr>]"

definition demo_env :: env where
  "demo_env =
     \<lparr>walk = (\<lambda>folder. [(folder, [''broken.html'', ''notes.txt'', ''blank.htm''])]),
      read_file = (\<lambda>path. if path = ''docs/broken.html''
                           then Inr ''<html><head><title></title></head></html>''
                           else Inr ''<html><body> </body></html>''),
      html_parser = (\<lambda>html. if html = ''<html><head><title></title></head></html>''
                             then [Tag ''html'' [Tag ''head'' [Tag ''title'' []]]]
                             else [Tag ''html'' [Tag ''body'' [NavigableString '' '']]]),
      embeddings = (\<lambda>model prompt. Inr [1]),
      chat = (\<lambda>model prompt. Inr [''Hello'']),
      uuid4 = (\<lambda>n. ''id''),
      client_fault = None,
      query_fault = (\<lambda>v. if v = [] then Some (Exn RuntimeError ''dimension mismatch'') else None),
      add_fault = (\<lambda>items. None),
      distance = (\<lambda>a b. 0),
      missing_collection = (\<lambda>name. Exn NotFoundError (''Collection ['' @ name @ ''] does not exist'')),
      existing_collection = (\<lambda>name. Exn RuntimeError (''Collection ['' @ name @ ''] already exists''))\<rparr>"

definition demo_world :: world where
  "demo_world =
     \<lparr>collections = [COLLECTION_NAME \<mapsto> demo_items], embed_calls = [], chat_calls = [],
      index_writes = 0, uuids_drawn = 0\<rparr>"

definition empty_world :: world where
  "empty_world =
     \<lparr>collections = Map.empty, embed_calls = [], chat_calls = [],
      index_writes = 0, uuids_drawn = 0\<rparr>"

definition offline_env :: env where
  "offline_env =
     demo_env\<lparr>embeddings := (\<lambda>model prompt. Inl (Exn ConnectionError ''Failed to connect to Ollama''))\<rparr>"

definition unreadable_env :: env where
  "unreadable_env =
     demo_env\<lparr>read_file := (\<lambda>path. if path = ''docs/broken.html''
                                   then Inl (Exn OSError ''Permission denied'')
                                   else Inr ''<html><body> </body></html>'')\<rparr>"

section \<open>Properties of the string primitives and of the chunker\<close>

lemma is_space_newline: "is_space (CHR 0x0A)"
  by (simp add: is_space_def)

lemma split_aux_append_space:
  "is_space c \<Longrightarrow> split_aux w (a @ c # b) = split_aux w a @ split_aux [] b"
  by (induction a arbitrary: w) auto

lemma split_aux_blank: "\<forall>c\<in>set ws. is_space c \<Longrightarrow> split_aux [] ws = []"
  by (induction ws) auto

lemma split_aux_append_blank:
  "\<forall>c\<in>set ws. is_space c \<Longrightarrow> split_aux w (a @ ws) = split_aux w a"
proof (induction a arbitrary: w)
  case Nil
  then show ?case by (cases ws) (auto simp: split_aux_blank)
next
  case (Cons x a)
  then show ?case by simp
qed

lemma split_ws_dropWhile: "split_ws (dropWhile is_space s) = split_ws s"
  by (induction s) (auto simp: split_ws_def)

lemma strip_decomp:
  "dropWhile is_space s = strip s @ rev (takeWhile is_space (rev (dropWhile is_space s)))"
  unfolding strip_def
  by (metis rev_append rev_rev_ident takeWhile_dropWhile_id)

lemma split_ws_strip: "split_ws (strip s) = split_ws s"
proof -
  let ?t = "rev (takeWhile is_space (rev (dropWhile is_space s)))"
  have blank: "\<forall>c\<in>set ?t. is_space c"
    by (auto dest: set_takeWhileD)
  have "split_ws s = split_ws (strip s @ ?t)"
    using strip_decomp[of s] split_ws_dropWhile[of s] by simp
  also have "\<dots> = split_ws (strip s)"
    using split_aux_append_blank[OF blank] by (simp add: split_ws_def)
  finally show ?thesis by simp
qed

lemma word_count_strip: "word_count (strip s) = word_count s"
  by (simp add: word_count_def split_ws_strip)

lemma set_strip: "set (strip s) \<subseteq> set s"
proof -
  have "set (strip s) \<subseteq> set (dropWhile is_space s)"
    unfolding strip_def by (auto dest: set_dropWhileD)
  then show ?thesis by (auto dest: set_dropWhileD)
qed

lemma strip_snoc_space: "is_space c \<Longrightarrow> strip (p @ [c]) = strip p"
proof (cases "\<forall>x\<in>set p. is_space x")
  case True
  assume "is_space c"
  with True have "dropWhile is_space (p @ [c]) = []" "dropWhile is_space p = []"
    by simp_all
  then show ?thesis by (simp add: strip_def del: dropWhile_eq_Nil_conv)
next
  case False
  assume "is_space c"
  from False obtain x where "x \<in> set p" "\<not> is_space x" by blast
  then have "dropWhile is_space (p @ [c]) = dropWhile is_space p @ [c]"
    by (rule dropWhile_append1)
  with \<open>is_space c\<close> show ?thesis by (simp add: strip_def del: dropWhile_eq_Nil_conv)
qed

lemma strip_blank: "(strip s = []) = (\<forall>c\<in>set s. is_space c)"
proof
  assume "strip s = []"
  then have all: "\<forall>x\<in>set (dropWhile is_space s). is_space x"
    by (simp add: strip_def)
  have "dropWhile is_space s = []"
  proof (rule ccontr)
    assume ne: "dropWhile is_space s \<noteq> []"
    then have "\<not> is_space (hd (dropWhile is_space s))" by (rule hd_dropWhile)
    moreover have "hd (dropWhile is_space s) \<in> set (dropWhile is_space s)" using ne by simp
    ultimately show False using all by blast
  qed
  then show "\<forall>c\<in>set s. is_space c" by simp
next
  assume "\<forall>c\<in>set s. is_space c"
  then have "dropWhile is_space s = []" by simp
  then show "strip s = []" by (simp add: strip_def del: dropWhile_eq_Nil_conv)
qed

lemma split_nl_nonempty: "split_nl s \<noteq> []"
  by (induction s) (auto split: list.splits)

lemma split_nl_no_newline: "p \<in> set (split_nl s) \<Longrightarrow> CHR 0x0A \<notin> set p"
  by (induction s arbitrary: p) (auto split: list.splits if_splits)

lemma length_split_nl: "length (split_nl s) = Suc (length (filter (\<lambda>c. c = CHR 0x0A) s))"
  by (induction s) (auto split: list.splits simp: split_nl_nonempty)

lemma split_nl_single: "(length (split_nl s) = Suc 0) = (CHR 0x0A \<notin> set s)"
  by (auto simp: length_split_nl filter_empty_conv)

lemma split_nl_multi: "(2 \<le> length (split_nl s)) = (CHR 0x0A \<in> set s)"
proof -
  have "1 \<le> length (split_nl s)" by (simp add: length_split_nl)
  then have "(2 \<le> length (split_nl s)) = (length (split_nl s) \<noteq> Suc 0)" by arith
  then show ?thesis using split_nl_single[of s] by blast
qed

lemma word_count_append_paragraph:
  assumes "cur = [] \<or> last cur = CHR 0x0A"
  shows "word_count (cur @ para @ [CHR 0x0A]) = word_count cur + word_count para"
proof (cases "cur = []")
  case True
  have "split_aux [] (para @ [CHR 0x0A]) = split_aux [] para"
    using split_aux_append_blank[of "[CHR 0x0A]" "[]" para] by (simp add: is_space_newline)
  with True show ?thesis by (simp add: word_count_def split_ws_def)
next
  case False
  with assms obtain x where cur: "cur = x @ [CHR 0x0A]"
    by (metis append_butlast_last_id)
  have a: "split_aux [] (x @ [CHR 0x0A]) = split_aux [] x"
    using split_aux_append_blank[of "[CHR 0x0A]" "[]" x] by (simp add: is_space_newline)
  have b: "split_aux [] (para @ [CHR 0x0A]) = split_aux [] para"
    using split_aux_append_blank[of "[CHR 0x0A]" "[]" para] by (simp add: is_space_newline)
  have "split_aux [] (x @ CHR 0x0A # (para @ [CHR 0x0A])) = split_aux [] x @ split_aux [] (para @ [CHR 0x0A])"
    by (rule split_aux_append_space[OF is_space_newline])
  with a b cur show ?thesis by (simp add: word_count_def split_ws_def)
qed

lemma buffer_ok_flush: "buffer_ok P m cur \<Longrightarrow> chunk_ok P m (strip cur)"
proof -
  assume ok: "buffer_ok P m cur"
  show ?thesis
  proof (cases "int (word_count cur) < m \<or> cur = []")
    case True
    then show ?thesis
    proof
      assume "int (word_count cur) < m"
      then show ?thesis by (simp add: chunk_ok_def word_count_strip)
    next
      assume "cur = []"
      then show ?thesis by (simp add: chunk_ok_def strip_def)
    qed
  next
    case False
    with ok have ne: "cur \<noteq> []" and l: "last cur = CHR 0x0A" and p: "butlast cur \<in> P"
      by (auto simp: buffer_ok_def)
    have cur: "cur = butlast cur @ [CHR 0x0A]"
      using append_butlast_last_id[OF ne] l by simp
    have "strip cur = strip (butlast cur)"
      using strip_snoc_space[OF is_space_newline, of "butlast cur"] cur by simp
    with p show ?thesis by (auto simp: chunk_ok_def)
  qed
qed

lemma chunk_loop_invariant:
  "\<lbrakk> buffer_ok P m cur; \<forall>c\<in>set chunks. chunk_ok P m c; set paras \<subseteq> P;
     chunk_loop m paras chunks cur = (chunks', cur') \<rbrakk>
   \<Longrightarrow> (\<forall>c\<in>set chunks'. chunk_ok P m c) \<and> buffer_ok P m cur'"
proof (induction paras arbitrary: chunks cur)
  case Nil
  then show ?case by simp
next
  case (Cons para paras)
  have rest: "set paras \<subseteq> P" and para: "para \<in> P"
    using Cons.prems(3) by simp_all
  show ?case
  proof (cases "int (length (split_ws cur)) + int (length (split_ws para)) < m")
    case True
    have "cur = [] \<or> last cur = CHR 0x0A"
      using Cons.prems(1) by (simp add: buffer_ok_def)
    then have "int (word_count (cur @ para @ [CHR 0x0A])) < m"
      using True word_count_append_paragraph[of cur para] by (simp add: word_count_def)
    then have b: "buffer_ok P m (cur @ para @ [CHR 0x0A])"
      by (simp add: buffer_ok_def)
    have l: "chunk_loop m paras chunks (cur @ para @ [CHR 0x0A]) = (chunks', cur')"
      using Cons.prems(4) True by simp
    show ?thesis by (rule Cons.IH[OF b Cons.prems(2) rest l])
  next
    case False
    have b: "buffer_ok P m (para @ [CHR 0x0A])"
      using para by (simp add: buffer_ok_def)
    have "chunk_ok P m (strip cur)"
      using Cons.prems(1) by (rule buffer_ok_flush)
    then have c: "\<forall>c\<in>set (chunks @ [strip cur]). chunk_ok P m c"
      using Cons.prems(2) by simp
    have l: "chunk_loop m paras (chunks @ [strip cur]) (para @ [CHR 0x0A]) = (chunks', cur')"
      using Cons.prems(4) False by simp
    show ?thesis by (rule Cons.IH[OF b c rest l])
  qed
qed

lemma chunk_text_chunk_ok:
  "c \<in> set (chunk_text text m) \<Longrightarrow> chunk_ok (set (split_nl text)) m c"
proof -
  assume c: "c \<in> set (chunk_text text m)"
  obtain chunks cur where loop: "chunk_loop m (split_nl text) [] [] = (chunks, cur)"
    by (cases "chunk_loop m (split_nl text) [] []")
  have b: "buffer_ok (set (split_nl text)) m []" by (simp add: buffer_ok_def)
  have e: "\<forall>c\<in>set []. chunk_ok (set (split_nl text)) m c" by simp
  have inv: "(\<forall>c\<in>set chunks. chunk_ok (set (split_nl text)) m c) \<and> buffer_ok (set (split_nl text)) m cur"
    by (rule chunk_loop_invariant[OF b e subset_refl loop])
  then have "chunk_ok (set (split_nl text)) m (strip cur)" by (simp add: buffer_ok_flush)
  with inv c loop show ?thesis by (auto simp: chunk_text_def split: if_splits)
qed

lemma chunk_ok_multiline:
  assumes "chunk_ok (set (split_nl text)) m c" and "CHR 0x0A \<in> set c"
  shows "int (word_count c) < m"
proof (rule ccontr)
  assume "\<not> int (word_count c) < m"
  with assms(1) have "c = [] \<or> (\<exists>p\<in>set (split_nl text). c = strip p)"
    by (simp add: chunk_ok_def)
  then show False
  proof
    assume "c = []"
    with assms(2) show False by simp
  next
    assume "\<exists>p\<in>set (split_nl text). c = strip p"
    then obtain p where p: "p \<in> set (split_nl text)" "c = strip p" by blast
    then have "CHR 0x0A \<notin> set p" by (simp add: split_nl_no_newline)
    with p(2) assms(2) set_strip[of p] show False by auto
  qed
qed

text \<open>
  The loop only appends to the chunks; so when the first paragraph alone reaches the
  bound, the empty buffer flushed before it stays the first chunk of the result.
\<close>

lemma chunk_loop_extends: "\<exists>more. fst (chunk_loop m paras chunks cur) = chunks @ more"
proof (induction paras arbitrary: chunks cur)
  case Nil
  then show ?case by simp
next
  case (Cons para paras)
  show ?case
  proof (cases "int (length (split_ws cur)) + int (length (split_ws para)) < m")
    case True
    then show ?thesis using Cons.IH[of chunks "cur @ para @ [CHR 0x0A]"] by simp
  next
    case False
    from Cons.IH[of "chunks @ [strip cur]" "para @ [CHR 0x0A]"]
    obtain more where
      "fst (chunk_loop m paras (chunks @ [strip cur]) (para @ [CHR 0x0A])) =
         (chunks @ [strip cur]) @ more"
      by blast
    with False show ?thesis by simp
  qed
qed

lemma chunk_text_first_paragraph_at_bound:
  assumes "split_nl text = para # paras" and "max_tokens \<le> int (word_count para)"
  shows "\<exists>more. chunk_text text max_tokens = [] # more"
proof -
  have step: "chunk_loop max_tokens (para # paras) [] [] =
      chunk_loop max_tokens paras [[]] (para @ [CHR 0x0A])"
    using assms(2) by (simp add: word_count_def split_ws_def strip_def)
  obtain chunks cur where loop: "chunk_loop max_tokens paras [[]] (para @ [CHR 0x0A]) = (chunks, cur)"
    by (cases "chunk_loop max_tokens paras [[]] (para @ [CHR 0x0A])")
  from chunk_loop_extends[of max_tokens paras "[[]]" "para @ [CHR 0x0A]"] loop
  obtain more where "chunks = [] # more" by auto
  with loop step assms(1) show ?thesis by (simp add: chunk_text_def)
qed

lemma chunk_loop_blank:
  "\<lbrakk> 0 < m; \<forall>p\<in>set paras. strip p = []; \<forall>c\<in>set cur. is_space c \<rbrakk>
   \<Longrightarrow> \<exists>cur'. chunk_loop m paras chunks cur = (chunks, cur') \<and> (\<forall>c\<in>set cur'. is_space c)"
proof (induction paras arbitrary: cur)
  case Nil
  then show ?case by simp
next
  case (Cons para paras)
  have p: "\<forall>c\<in>set para. is_space c" using Cons.prems(2) by (simp add: strip_blank)
  have "split_ws cur = []" "split_ws para = []"
    using Cons.prems(3) p by (simp_all add: split_ws_def split_aux_blank)
  moreover have "\<forall>c\<in>set (cur @ para @ [CHR 0x0A]). is_space c"
    using Cons.prems(3) p is_space_newline by auto
  ultimately show ?case using Cons.IH[of "cur @ para @ [CHR 0x0A]"] Cons.prems(1,2) by simp
qed

lemma chunk_text_blank:
  "0 < m \<Longrightarrow> \<forall>p\<in>set (split_nl text). strip p = [] \<Longrightarrow> chunk_text text m = []"
  using chunk_loop_blank[of m "split_nl text" "[]" "[]"]
  by (auto simp: chunk_text_def strip_blank)

section \<open>Claims about the chunker\<close>

text \<open>
  C1 (the chunker returns only non-empty strings) does not hold of the code. When the
  first paragraph alone has at least \<open>max_tokens\<close> words, the \<open>else\<close> branch flushes the
  still empty buffer, and the empty string is appended to the chunks without the test
  for emptiness that the final flush makes. Here the bound is 2 and the only paragraph
  has three words: the result starts with the empty chunk.
\<close>

theorem chunk_text_emits_empty_chunk:
  "chunk_text ''a b c'' 2 = ['''', ''a b c'']"
  by (simp add: chunk_text_def split_ws_def strip_def is_space_def)

text \<open>
  C2: for every text and every integer bound, every chunk has at most \<open>max_tokens\<close>
  whitespace-delimited tokens, or else it consists of exactly one paragraph (split on
  newlines as the chunker splits its input, the chunk is a single piece) and exceeds the
  bound; a chunk of two or more paragraphs is strictly below the bound. A non-empty
  chunk above the bound is moreover one paragraph of the input, trimmed, whose own token
  count exceeds the bound. (The empty chunk of C1 is within every bound that is not
  negative; under a negative bound it is a single blank piece above the bound.)
\<close>

theorem chunk_text_token_bound:
  "c \<in> set (chunk_text text max_tokens) \<Longrightarrow>
     (int (word_count c) \<le> max_tokens \<or>
        (length (split_nl c) = 1 \<and> max_tokens < int (word_count c))) \<and>
     (2 \<le> length (split_nl c) \<longrightarrow> int (word_count c) < max_tokens) \<and>
     (max_tokens < int (word_count c) \<and> c \<noteq> [] \<longrightarrow>
        (\<exists>p\<in>set (split_nl text). c = strip p \<and> max_tokens < int (word_count p)))"
proof -
  assume "c \<in> set (chunk_text text max_tokens)"
  then have ok: "chunk_ok (set (split_nl text)) max_tokens c"
    by (rule chunk_text_chunk_ok)
  have multi: "2 \<le> length (split_nl c) \<longrightarrow> int (word_count c) < max_tokens"
    using chunk_ok_multiline[OF ok] by (simp add: split_nl_multi)
  have single: "int (word_count c) \<le> max_tokens \<or>
        (length (split_nl c) = 1 \<and> max_tokens < int (word_count c))"
  proof (cases "int (word_count c) \<le> max_tokens")
    case True
    then show ?thesis by simp
  next
    case False
    with multi have "\<not> 2 \<le> length (split_nl c)" by simp
    moreover have "1 \<le> length (split_nl c)"
      by (simp add: length_split_nl)
    ultimately have "length (split_nl c) = 1" by arith
    with False show ?thesis by simp
  qed
  have origin: "max_tokens < int (word_count c) \<and> c \<noteq> [] \<longrightarrow>
        (\<exists>p\<in>set (split_nl text). c = strip p \<and> max_tokens < int (word_count p))"
    using ok by (auto simp: chunk_ok_def word_count_strip)
  from single multi origin show ?thesis by blast
qed

theorem chunk_text_token_bound_witness:
  "''a\<newline>b'' \<in> set (chunk_text ''a\<newline>b\<newline>c d e f'' 3) \<and>
   2 \<le> length (split_nl ''a\<newline>b'') \<and> int (word_count ''a\<newline>b'') < 3 \<and>
   ''c d e f'' \<in> set (chunk_text ''a\<newline>b\<newline>c d e f'' 3) \<and>
   length (split_nl ''c d e f'') = 1 \<and> 3 < int (word_count ''c d e f'') \<and>
   (\<exists>p\<in>set (split_nl ''a\<newline>b\<newline>c d e f''). ''c d e f'' = strip p \<and> 3 < int (word_count p))"
proof -
  have chunks: "chunk_text ''a\<newline>b\<newline>c d e f'' 3 = [''a\<newline>b'', ''c d e f'']"
    by (simp add: chunk_text_def split_ws_def strip_def is_space_def)
  have m1: "''a\<newline>b'' \<in> set (chunk_text ''a\<newline>b\<newline>c d e f'' 3)"
    and m2: "''c d e f'' \<in> set (chunk_text ''a\<newline>b\<newline>c d e f'' 3)"
    by (simp_all add: chunks)
  have n: "2 \<le> length (split_nl ''a\<newline>b'')" and w: "3 < int (word_count ''c d e f'')"
    by (simp_all add: word_count_def split_ws_def is_space_def)
  show ?thesis
    using chunk_text_token_bound[OF m1] chunk_text_token_bound[OF m2] m1 m2 n w
    by simp
qed

section \<open>Properties of the search\<close>

lemma search_vector_db_total: "\<exists>r. search_vector_db e w q k = Inr r"
  by (simp add: search_vector_db_def split: sum.split)

lemma get_collection_embed_calls:
  "get_collection e (w\<lparr>embed_calls := c\<rparr>) name = get_collection e w name"
  by (simp add: get_collection_def)

lemma search_vector_db_embed_calls:
  "search_vector_db e (w\<lparr>embed_calls := c\<rparr>) q k = search_vector_db e w q k"
  unfolding search_vector_db_def search_try_def get_collection_embed_calls
  by (rule refl)

lemma search_vector_db_client_fault:
  "client_fault e = Some x \<Longrightarrow> search_vector_db e w q k = Inr []"
  by (simp add: search_vector_db_def search_try_def PersistentClient_def)

lemma search_vector_db_no_collection:
  "collections w COLLECTION_NAME = None \<Longrightarrow> search_vector_db e w q k = Inr []"
  by (simp add: search_vector_db_def search_try_def get_collection_def split: sum.split)

lemma search_vector_db_query_fault:
  "query_fault e q = Some x \<Longrightarrow> search_vector_db e w q k = Inr []"
  by (simp add: search_vector_db_def search_try_def collection_query_def split: sum.split)

lemma search_vector_db_hits:
  assumes "client_fault e = None" and "query_fault e q = None"
    and "collections w COLLECTION_NAME = Some items"
  shows "search_vector_db e w q k =
           Inr (map (\<lambda>it. \<lparr>document = item_document it, metadata = item_metadata it\<rparr>)
                  (take k (sort_key (\<lambda>it. distance e q (item_embedding it)) items)))"
proof -
  define hits where "hits = take k (sort_key (\<lambda>it. distance e q (item_embedding it)) items)"
  have query: "collection_query e items q k =
      Inr \<lparr>ids = [map item_id hits], documents = [map item_document hits],
           metadatas = [map item_metadata hits]\<rparr>"
    using assms(2) by (simp add: collection_query_def hits_def Let_def)
  have "search_try e w q k =
      Inr (map (\<lambda>it. \<lparr>document = item_document it, metadata = item_metadata it\<rparr>) hits)"
  proof (cases hits)
    case Nil
    with assms(1,3) query show ?thesis
      by (simp add: search_try_def PersistentClient_def get_collection_def)
  next
    case (Cons h hs)
    with assms(1,3) query show ?thesis
      by (simp add: search_try_def PersistentClient_def get_collection_def index0_def
          zip_map_map zip_same_conv_map)
  qed
  then show ?thesis by (simp add: search_vector_db_def hits_def)
qed

lemma search_vector_db_empty_collection:
  "collections w COLLECTION_NAME = Some [] \<Longrightarrow> search_vector_db e w q k = Inr []"
  by (simp add: search_vector_db_def search_try_def get_collection_def collection_query_def
      PersistentClient_def split: sum.split option.split)

lemma search_vector_db_zero_matches:
  assumes "collections w COLLECTION_NAME = Some items"
    and "take k (sort_key (\<lambda>it. distance e q (item_embedding it)) items) = []"
  shows "search_vector_db e w q k = Inr []"
proof (cases "client_fault e")
  case (Some x)
  then show ?thesis by (simp add: search_vector_db_client_fault)
next
  case None
  show ?thesis
  proof (cases "query_fault e q")
    case (Some x)
    then show ?thesis by (simp add: search_vector_db_query_fault)
  next
    case no_fault: None
    show ?thesis
      using search_vector_db_hits[OF None no_fault assms(1), of k] assms(2) by simp
  qed
qed

section \<open>Properties of the query path\<close>

lemma removeAll_filter_seen:
  "removeAll p (filter (\<lambda>q. q \<notin> seen) xs) = filter (\<lambda>q. q \<notin> insert p seen) xs"
  by (induction xs) auto

lemma source_paths_Cons:
  "source_paths (chunk # rest) =
     (case metadata chunk ''source_path'' of
        None \<Rightarrow> source_paths rest
      | Some p \<Rightarrow> if p \<noteq> [] then p # source_paths rest else source_paths rest)"
  by (simp add: source_paths_def List.map_filter_simps split: option.split)

lemma source_loop_general:
  "source_loop chunks docs seen =
     docs @ map basename (keep_first (filter (\<lambda>p. p \<notin> seen) (source_paths chunks)))"
proof (induction chunks arbitrary: docs seen)
  case Nil
  then show ?case by (simp add: source_paths_def List.map_filter_simps)
next
  case (Cons chunk rest)
  then show ?case
    by (simp add: source_paths_Cons removeAll_filter_seen split: option.split)
qed

lemma source_loop_keep_first:
  "source_loop chunks [] {} = map basename (keep_first (source_paths chunks))"
  by (simp add: source_loop_general)

lemma rag_embedding_raises:
  "embeddings e EMBEDDING_MODEL query = Inl x \<Longrightarrow>
     get_rag_response_stream e w query = (Inl x, w\<lparr>embed_calls := embed_calls w @ [query]\<rparr>)"
  by (simp add: get_rag_response_stream_def Let_def)

lemma rag_no_documents:
  "embeddings e EMBEDDING_MODEL query = Inr v \<Longrightarrow> search_vector_db e w v 5 = Inr [] \<Longrightarrow>
     get_rag_response_stream e w query =
       (Inr (None, NO_DOCUMENTS_MESSAGE), w\<lparr>embed_calls := embed_calls w @ [query]\<rparr>)"
  by (simp add: get_rag_response_stream_def Let_def search_vector_db_embed_calls)

lemma rag_answer:
  assumes "embeddings e EMBEDDING_MODEL query = Inr v"
    and "search_vector_db e w v 5 = Inr chunks" and "chunks \<noteq> []"
    and "chat e LLM_MODEL
           (format_prompt
              (join [CHR 0x0A, CHR 0x0A, CHR ''-'', CHR ''-'', CHR ''-'', CHR 0x0A, CHR 0x0A]
                 (map document chunks)) query) = Inr s"
  shows "fst (get_rag_response_stream e w query) =
           Inr (Some s, sources_text_of (source_loop chunks [] {}))"
  using assms by (simp add: get_rag_response_stream_def Let_def search_vector_db_embed_calls)

lemma demo_retrieved:
  "search_vector_db demo_env demo_world [1] 5 =
     Inr [\<lparr>document = ''first passage'',
           metadata = [''title'' \<mapsto> ''B'', ''source_path'' \<mapsto> ''b/doc.html'']\<rparr>,
          \<lparr>document = ''second passage'',
           metadata = [''title'' \<mapsto> ''A'', ''source_path'' \<mapsto> ''a/doc.html'']\<rparr>,
          \<lparr>document = ''third passage'',
           metadata = [''title'' \<mapsto> ''A'', ''source_path'' \<mapsto> ''a/doc.html'']\<rparr>]"
proof -
  have s: "sort_key (\<lambda>it. distance demo_env [1] (item_embedding it)) demo_items = demo_items"
    by (simp add: demo_env_def demo_items_def)
  have "client_fault demo_env = None" "query_fault demo_env [1] = None"
    "collections demo_world COLLECTION_NAME = Some demo_items"
    by (simp_all add: demo_env_def demo_world_def)
  then show ?thesis
    using s by (simp add: search_vector_db_hits demo_items_def)
qed

section \<open>Properties of the ingestion loop\<close>

text \<open>
  What the \<open>try\<close> statement of the loop does catch: once the file has been read, every
  exception of the body (parsing, an embedding call, the index write) becomes a failure
  line, and the iteration returns.
\<close>

lemma process_file_not_eligible:
  "\<not> (endswith (lower file) ''.html'' \<or> endswith (lower file) ''.htm'') \<Longrightarrow>
     process_file e root_dir file (summary, w) = Inr (summary, w)"
  by (simp add: process_file_def)

lemma process_file_read_raises:
  "endswith (lower file) ''.html'' \<or> endswith (lower file) ''.htm'' \<Longrightarrow>
   read_file e (path_join root_dir file) = Inl x \<Longrightarrow>
     process_file e root_dir file (summary, w) = Inl x"
  by (simp add: process_file_def Let_def)

lemma process_file_caught:
  "endswith (lower file) ''.html'' \<or> endswith (lower file) ''.htm'' \<Longrightarrow>
   read_file e (path_join root_dir file) = Inr html \<Longrightarrow>
   ingest_try e file (path_join root_dir file) html summary w = (Inl x, w1) \<Longrightarrow>
     process_file e root_dir file (summary, w) =
       Inr (summary @ [Failed (path_join root_dir file) (exn_str x)], w1)"
  by (simp add: process_file_def Let_def)

lemma process_file_returns:
  "read_file e (path_join root_dir file) = Inr html \<Longrightarrow>
     \<exists>acc. process_file e root_dir file (summary, w) = Inr acc"
  by (simp add: process_file_def Let_def split: prod.split sum.split)

lemma process_file_no_chunks:
  "endswith (lower file) ''.html'' \<or> endswith (lower file) ''.htm'' \<Longrightarrow>
   read_file e (path_join root_dir file) = Inr html \<Longrightarrow>
   clean_html (html_parser e) html = Inr (title, body) \<Longrightarrow>
   chunk_text body CHUNK_SIZE_TOKENS = [] \<Longrightarrow>
     process_file e root_dir file (summary, w) = Inr (summary, w)"
  by (simp add: process_file_def ingest_try_def Let_def)

lemma process_file_title_raises:
  "endswith (lower file) ''.html'' \<or> endswith (lower file) ''.htm'' \<Longrightarrow>
   read_file e (path_join root_dir file) = Inr html \<Longrightarrow>
   clean_html (html_parser e) html = Inl x \<Longrightarrow>
     process_file e root_dir file (summary, w) =
       Inr (summary @ [Failed (path_join root_dir file) (exn_str x)], w)"
  by (simp add: process_file_def ingest_try_def Let_def)

lemma demo_blank_page:
  "clean_html (html_parser demo_env) ''<html><body> </body></html>'' =
     Inr (''Untitled Document'', '''')"
  by (simp add: clean_html_def demo_env_def get_text_def strip_def is_space_def)

lemma demo_broken_page:
  "clean_html (html_parser demo_env) ''<html><head><title></title></head></html>'' =
     Inl none_has_no_strip"
  by (simp add: clean_html_def demo_env_def)

section \<open>Claims about ingestion\<close>

text \<open>
  C3 (any step of processing one file that raises, reading included, is caught at file
  granularity and the walk goes on) does not hold of the code: the file is opened and
  read before the \<open>try\<close> statement. In the directory \<open>docs\<close> the first page cannot be
  read; the exception leaves \<open>ingest_directory\<close>, no failure line is recorded and the
  page after it is never reached. Decoding cannot raise (\<open>errors="ignore"\<close>); parsing,
  embedding and the index write are inside the \<open>try\<close> and are caught, see
  \<open>process_file_caught\<close>.
\<close>

theorem ingest_directory_read_failure_escapes:
  "ingest_directory unreadable_env empty_world ''docs'' = Inl (Exn OSError ''Permission denied'')"
  by (simp add: ingest_directory_def unreadable_env_def demo_env_def empty_world_def
      PersistentClient_def get_or_create_collection_def process_file_def endswith_def lower_def
      lower_char_def path_join_def)

text \<open>
  C8: chunking the empty string, or a text whose paragraphs are all blank, gives no
  chunk, for every positive bound and so for the configured one; and an eligible file
  whose text gives no chunk leaves the summary and the world as they were: no embedding
  call is logged, the index is not written and no summary line is appended.
\<close>

theorem empty_chunking_skips_file:
  "chunk_text '''' CHUNK_SIZE_TOKENS = [] \<and>
   (0 < max_tokens \<longrightarrow> chunk_text '''' max_tokens = []) \<and>
   (0 < max_tokens \<and> (\<forall>p\<in>set (split_nl text). strip p = []) \<longrightarrow>
      chunk_text text max_tokens = []) \<and>
   ((endswith (lower file) ''.html'' \<or> endswith (lower file) ''.htm'') \<and>
    read_file e (path_join root_dir file) = Inr html \<and>
    clean_html (html_parser e) html = Inr (title, body) \<and>
    chunk_text body CHUNK_SIZE_TOKENS = [] \<longrightarrow>
      process_file e root_dir file (summary, w) = Inr (summary, w))"
proof -
  have a: "0 < m \<longrightarrow> chunk_text '''' m = []" for m
    using chunk_text_blank[of m "''''"] by (simp add: strip_def)
  have b: "0 < max_tokens \<and> (\<forall>p\<in>set (split_nl text). strip p = []) \<longrightarrow>
      chunk_text text max_tokens = []"
    using chunk_text_blank[of max_tokens "text"] by blast
  have c: "chunk_text '''' CHUNK_SIZE_TOKENS = []"
    using a[of CHUNK_SIZE_TOKENS] by (simp add: CHUNK_SIZE_TOKENS_def)
  from a[of max_tokens] b c show ?thesis
    using process_file_no_chunks by blast
qed

theorem empty_chunking_skips_file_witness:
  "chunk_text '''' 400 = [] \<and>
   chunk_text ''  \<newline> \<newline>'' 400 = [] \<and>
   process_file demo_env ''docs'' ''blank.htm'' ([], empty_world) = Inr ([], empty_world)"
proof -
  have blank: "\<forall>p\<in>set (split_nl ''  \<newline> \<newline>''). strip p = []"
    by (simp add: strip_def is_space_def)
  have el: "endswith (lower ''blank.htm'') ''.html'' \<or> endswith (lower ''blank.htm'') ''.htm''"
    by (simp add: endswith_def lower_def lower_char_def)
  have rd: "read_file demo_env (path_join ''docs'' ''blank.htm'') = Inr ''<html><body> </body></html>''"
    by (simp add: demo_env_def path_join_def)
  have ch: "chunk_text '''' CHUNK_SIZE_TOKENS = []"
    by (simp add: chunk_text_def CHUNK_SIZE_TOKENS_def split_ws_def strip_def is_space_def)
  from empty_chunking_skips_file[of 400 "''  \<newline> \<newline>''" "''blank.htm''" demo_env "''docs''"
      "''<html><body> </body></html>''" "''Untitled Document''" "''''" "[]" empty_world]
    blank el rd demo_blank_page ch
  show ?thesis by simp
qed

text \<open>
  C10: when the HTML has a title element whose \<open>.string\<close> is \<open>None\<close> (an empty
  \<open>title\<close> element, for one), \<open>clean_html\<close> raises instead of returning a title; the
  default title is returned only when there is no title element at all. During
  ingestion such a file, once read, is recorded as a failure line and nothing of it
  is indexed.
\<close>

theorem clean_html_empty_title_raises:
  "(first_some (map (find_tag ''title'')
      (concat (map (decompose [''script'', ''style'']) (html_parser e html)))) = None
    \<longrightarrow> (\<exists>body. clean_html (html_parser e) html = Inr (''Untitled Document'', body))) \<and>
   (first_some (map (find_tag ''title'')
      (concat (map (decompose [''script'', ''style'']) (html_parser e html)))) = Some contents \<and>
    tag_string contents = None
    \<longrightarrow> clean_html (html_parser e) html = Inl none_has_no_strip \<and>
        exn_class_of none_has_no_strip = AttributeError \<and>
        ((endswith (lower file) ''.html'' \<or> endswith (lower file) ''.htm'') \<and>
         read_file e (path_join root_dir file) = Inr html
         \<longrightarrow> process_file e root_dir file (summary, w) =
               Inr (summary @ [Failed (path_join root_dir file) (exn_str none_has_no_strip)], w)))"
proof -
  have absent: "first_some (map (find_tag ''title'')
      (concat (map (decompose [''script'', ''style'']) (html_parser e html)))) = None
    \<longrightarrow> (\<exists>body. clean_html (html_parser e) html = Inr (''Untitled Document'', body))"
    by (simp add: clean_html_def Let_def)
  have present: "first_some (map (find_tag ''title'')
      (concat (map (decompose [''script'', ''style'']) (html_parser e html)))) = Some contents \<and>
    tag_string contents = None
    \<longrightarrow> clean_html (html_parser e) html = Inl none_has_no_strip"
    by (simp add: clean_html_def Let_def)
  have cls: "exn_class_of none_has_no_strip = AttributeError"
    by (simp add: none_has_no_strip_def)
  from absent present cls show ?thesis
    using process_file_title_raises by blast
qed

theorem clean_html_empty_title_raises_witness:
  "clean_html (html_parser demo_env) ''<html><body> </body></html>'' =
     Inr (''Untitled Document'', '''') \<and>
   clean_html (html_parser demo_env) ''<html><head><title></title></head></html>'' =
     Inl none_has_no_strip \<and>
   process_file demo_env ''docs'' ''broken.html'' ([], empty_world) =
     Inr ([Failed ''docs/broken.html'' (exn_str none_has_no_strip)], empty_world)"
proof -
  have t0: "first_some (map (find_tag ''title'')
      (concat (map (decompose [''script'', ''style''])
         (html_parser demo_env ''<html><body> </body></html>'')))) = None"
    by (simp add: demo_env_def)
  have t1: "first_some (map (find_tag ''title'')
      (concat (map (decompose [''script'', ''style''])
         (html_parser demo_env ''<html><head><title></title></head></html>'')))) = Some []"
    by (simp add: demo_env_def)
  have s: "tag_string [] = None" by simp
  have el: "endswith (lower ''broken.html'') ''.html'' \<or> endswith (lower ''broken.html'') ''.htm''"
    by (simp add: endswith_def lower_def lower_char_def)
  have pj: "path_join ''docs'' ''broken.html'' = ''docs/broken.html''"
    by (simp add: path_join_def)
  have rd: "read_file demo_env (path_join ''docs'' ''broken.html'') =
      Inr ''<html><head><title></title></head></html>''"
    by (simp add: demo_env_def pj)
  from clean_html_empty_title_raises[of demo_env "''<html><body> </body></html>''" "[]"
      "''blank.htm''" "''docs''" "[]" empty_world] t0
  have r0: "\<exists>body. clean_html (html_parser demo_env) ''<html><body> </body></html>'' =
      Inr (''Untitled Document'', body)"
    by blast
  from clean_html_empty_title_raises[of demo_env "''<html><head><title></title></head></html>''"
      "[]" "''broken.html''" "''docs''" "[]" empty_world] t1 s el rd
  have r1: "clean_html (html_parser demo_env) ''<html><head><title></title></head></html>'' =
      Inl none_has_no_strip \<and>
    process_file demo_env ''docs'' ''broken.html'' ([], empty_world) =
      Inr ([] @ [Failed (path_join ''docs'' ''broken.html'') (exn_str none_has_no_strip)], empty_world)"
    by blast
  from r0 r1 demo_blank_page show ?thesis by (simp add: pj)
qed

section \<open>Claims about retrieval and the query path\<close>

text \<open>
  C7: the search never raises. It returns the empty list when the collection does not
  exist, when the index cannot be opened, when the similarity search raises and when
  the query has no match; otherwise it returns the ranked hits, each as a record of its
  document and its metadata.
\<close>

theorem search_vector_db_never_raises:
  "(\<exists>r. search_vector_db e w q k = Inr r) \<and>
   (collections w COLLECTION_NAME = None \<longrightarrow> search_vector_db e w q k = Inr []) \<and>
   (client_fault e \<noteq> None \<longrightarrow> search_vector_db e w q k = Inr []) \<and>
   (query_fault e q \<noteq> None \<longrightarrow> search_vector_db e w q k = Inr []) \<and>
   (collections w COLLECTION_NAME = Some items \<and>
      take k (sort_key (\<lambda>it. distance e q (item_embedding it)) items) = []
      \<longrightarrow> search_vector_db e w q k = Inr []) \<and>
   (client_fault e = None \<and> query_fault e q = None \<and>
      collections w COLLECTION_NAME = Some items
      \<longrightarrow> search_vector_db e w q k =
            Inr (map (\<lambda>it. \<lparr>document = item_document it, metadata = item_metadata it\<rparr>)
                   (take k (sort_key (\<lambda>it. distance e q (item_embedding it)) items))))"
  using search_vector_db_total[of e w q k] search_vector_db_no_collection[of w e q k]
    search_vector_db_client_fault[of e _ w q k]
    search_vector_db_query_fault[of e q _ w k] search_vector_db_hits[of e q w items k]
    search_vector_db_zero_matches[of w items k e q]
  by auto

theorem search_vector_db_never_raises_witness:
  "search_vector_db demo_env empty_world [1] 5 = Inr [] \<and>
   search_vector_db (demo_env\<lparr>client_fault := Some (Exn OSError ''disk'')\<rparr>) demo_world [1] 5 = Inr [] \<and>
   search_vector_db demo_env demo_world [] 5 = Inr [] \<and>
   search_vector_db demo_env demo_world [1] 0 = Inr [] \<and>
   search_vector_db demo_env demo_world [1] 5 =
     Inr (map (\<lambda>it. \<lparr>document = item_document it, metadata = item_metadata it\<rparr>) demo_items)"
proof -
  have a: "collections empty_world COLLECTION_NAME = None"
    by (simp add: empty_world_def)
  have b: "query_fault demo_env [] \<noteq> None"
    by (simp add: demo_env_def)
  have c: "collections demo_world COLLECTION_NAME = Some demo_items"
    by (simp add: demo_world_def)
  have d: "client_fault demo_env = None" "query_fault demo_env [1] = None"
    by (simp_all add: demo_env_def)
  have f: "client_fault (demo_env\<lparr>client_fault := Some (Exn OSError ''disk'')\<rparr>) \<noteq> None"
    by simp
  have s: "sort_key (\<lambda>it. distance demo_env [1] (item_embedding it)) demo_items = demo_items"
    by (simp add: demo_env_def demo_items_def)
  from search_vector_db_never_raises[of demo_env empty_world "[1]" 5 "[]"] a
  have r1: "search_vector_db demo_env empty_world [1] 5 = Inr []" by blast
  from search_vector_db_never_raises[of "demo_env\<lparr>client_fault := Some (Exn OSError ''disk'')\<rparr>"
      demo_world "[1]" 5 demo_items] f
  have r2: "search_vector_db (demo_env\<lparr>client_fault := Some (Exn OSError ''disk'')\<rparr>)
      demo_world [1] 5 = Inr []" by blast
  from search_vector_db_never_raises[of demo_env demo_world "[]" 5 demo_items] b
  have r3: "search_vector_db demo_env demo_world [] 5 = Inr []" by blast
  from search_vector_db_never_raises[of demo_env demo_world "[1]" 0 demo_items] c
  have r4: "search_vector_db demo_env demo_world [1] 0 = Inr []" by simp
  from search_vector_db_never_raises[of demo_env demo_world "[1]" 5 demo_items] c d s
  have r5: "search_vector_db demo_env demo_world [1] 5 =
     Inr (map (\<lambda>it. \<lparr>document = item_document it, metadata = item_metadata it\<rparr>) demo_items)"
    by (simp add: demo_items_def)
  from r1 r2 r3 r4 r5 show ?thesis by blast
qed

text \<open>
  C4 (no exception ever leaves the query path, a failing embedding call included) does
  not hold of the code: the embedding call is made outside any handler. With the
  embedding service unreachable the exception is the result of the function.
\<close>

theorem rag_embedding_failure_escapes:
  "fst (get_rag_response_stream offline_env demo_world ''pricing'') =
     Inl (Exn ConnectionError ''Failed to connect to Ollama'')"
  by (simp add: get_rag_response_stream_def offline_env_def demo_env_def)

text \<open>
  C4 as amended: an exception of the embedding call leaves the function as it is; once
  the query is embedded, the errors of retrieval (the index cannot be opened, the
  collection does not exist or is empty, the similarity search raises) are turned into
  the result \<open>(None, message)\<close>.
\<close>

theorem rag_query_errors_converted:
  "(embeddings e EMBEDDING_MODEL query = Inl x \<longrightarrow>
      fst (get_rag_response_stream e w query) = Inl x) \<and>
   (embeddings e EMBEDDING_MODEL query = Inr v \<and>
      (client_fault e \<noteq> None \<or> collections w COLLECTION_NAME = None \<or>
       collections w COLLECTION_NAME = Some [] \<or> query_fault e v \<noteq> None) \<longrightarrow>
      fst (get_rag_response_stream e w query) = Inr (None, NO_DOCUMENTS_MESSAGE))"
proof -
  have "client_fault e \<noteq> None \<or> collections w COLLECTION_NAME = None \<or>
       collections w COLLECTION_NAME = Some [] \<or> query_fault e v \<noteq> None \<Longrightarrow>
       search_vector_db e w v 5 = Inr []"
    using search_vector_db_client_fault[of e _ w v 5] search_vector_db_no_collection[of w e v 5]
      search_vector_db_empty_collection[of w e v 5] search_vector_db_query_fault[of e v _ w 5]
    by auto
  then show ?thesis
    by (auto simp: rag_embedding_raises rag_no_documents)
qed

theorem rag_query_errors_converted_witness:
  "fst (get_rag_response_stream offline_env empty_world ''pricing'') =
     Inl (Exn ConnectionError ''Failed to connect to Ollama'') \<and>
   fst (get_rag_response_stream demo_env empty_world ''pricing'') =
     Inr (None, NO_DOCUMENTS_MESSAGE)"
proof -
  have a: "embeddings offline_env EMBEDDING_MODEL ''pricing'' =
             Inl (Exn ConnectionError ''Failed to connect to Ollama'')"
    by (simp add: offline_env_def demo_env_def)
  have b: "embeddings demo_env EMBEDDING_MODEL ''pricing'' = Inr [1]"
    by (simp add: demo_env_def)
  have c: "collections empty_world COLLECTION_NAME = None"
    by (simp add: empty_world_def)
  from rag_query_errors_converted[of offline_env "''pricing''"
      "Exn ConnectionError ''Failed to connect to Ollama''" empty_world "[1]"] a
  have r1: "fst (get_rag_response_stream offline_env empty_world ''pricing'') =
     Inl (Exn ConnectionError ''Failed to connect to Ollama'')"
    by blast
  from rag_query_errors_converted[of demo_env "''pricing''"
      "Exn ConnectionError ''Failed to connect to Ollama''" empty_world "[1]"] b c
  have r2: "fst (get_rag_response_stream demo_env empty_world ''pricing'') =
     Inr (None, NO_DOCUMENTS_MESSAGE)"
    by blast
  from r1 r2 show ?thesis by blast
qed

text \<open>
  C5: when the query is embedded and retrieval returns the empty list, the result is
  \<open>None\<close> with the fixed message, the only service call logged is the embedding of the
  query, and the log of calls to the generation service is unchanged.
\<close>

theorem rag_no_grounding_short_circuit:
  "embeddings e EMBEDDING_MODEL query = Inr v \<Longrightarrow> search_vector_db e w v 5 = Inr [] \<Longrightarrow>
     get_rag_response_stream e w query =
       (Inr (None, NO_DOCUMENTS_MESSAGE), w\<lparr>embed_calls := embed_calls w @ [query]\<rparr>) \<and>
     chat_calls (snd (get_rag_response_stream e w query)) = chat_calls w"
  by (simp add: rag_no_documents)

theorem rag_no_grounding_short_circuit_witness:
  "get_rag_response_stream demo_env empty_world ''pricing'' =
     (Inr (None, NO_DOCUMENTS_MESSAGE), empty_world\<lparr>embed_calls := [''pricing'']\<rparr>) \<and>
   chat_calls (snd (get_rag_response_stream demo_env empty_world ''pricing'')) = []"
proof -
  have a: "embeddings demo_env EMBEDDING_MODEL ''pricing'' = Inr [1]"
    by (simp add: demo_env_def)
  have b: "search_vector_db demo_env empty_world [1] 5 = Inr []"
    by (simp add: search_vector_db_no_collection empty_world_def)
  show ?thesis
    using rag_no_grounding_short_circuit[OF a b] by (simp add: empty_world_def)
qed

text \<open>
  C6: the loop that formats the sources computes the citation list of the
  specification. Its base names are those of the first occurrences of the distinct
  source paths in rank order (a result with no source path, or an empty one, has none);
  the text shows them sorted, one bullet each; and this text is the second component of
  the answer whenever retrieval is not empty and the generation call returns. For the
  paths \<open>b/doc.html\<close>, \<open>a/doc.html\<close>, \<open>a/doc.html\<close> the bullets are \<open>doc.html\<close> twice,
  once for each kept path.
\<close>

theorem citation_list_of_sources:
  "source_loop chunks [] {} = map basename (keep_first (source_paths chunks)) \<and>
   sources_text_of (source_loop chunks [] {}) =
     ''### Retrieved Sources:\<newline>''
     @ join [CHR 0x0A] (map (\<lambda>doc. ''- '' @ doc) (citation_list (source_paths chunks))) \<and>
   (embeddings e EMBEDDING_MODEL query = Inr v \<and>
    search_vector_db e w v 5 = Inr chunks \<and> chunks \<noteq> [] \<and>
    chat e LLM_MODEL
      (format_prompt
         (join [CHR 0x0A, CHR 0x0A, CHR ''-'', CHR ''-'', CHR ''-'', CHR 0x0A, CHR 0x0A]
            (map document chunks)) query) = Inr s
    \<longrightarrow> fst (get_rag_response_stream e w query) =
          Inr (Some s,
               ''### Retrieved Sources:\<newline>''
               @ join [CHR 0x0A] (map (\<lambda>doc. ''- '' @ doc) (citation_list (source_paths chunks)))))"
proof -
  have rendered: "sources_text_of (source_loop chunks [] {}) =
     ''### Retrieved Sources:\<newline>''
     @ join [CHR 0x0A] (map (\<lambda>doc. ''- '' @ doc) (citation_list (source_paths chunks)))"
    by (simp add: sources_text_of_def citation_list_def source_loop_keep_first)
  show ?thesis
    using rag_answer[of e query v w chunks s] rendered source_loop_keep_first[of chunks]
    by auto
qed

theorem citation_list_of_sources_witness:
  "source_paths
     [\<lparr>document = ''first passage'',
       metadata = [''title'' \<mapsto> ''B'', ''source_path'' \<mapsto> ''b/doc.html'']\<rparr>,
      \<lparr>document = ''second passage'',
       metadata = [''title'' \<mapsto> ''A'', ''source_path'' \<mapsto> ''a/doc.html'']\<rparr>,
      \<lparr>document = ''third passage'',
       metadata = [''title'' \<mapsto> ''A'', ''source_path'' \<mapsto> ''a/doc.html'']\<rparr>]
     = [''b/doc.html'', ''a/doc.html'', ''a/doc.html''] \<and>
   keep_first [''b/doc.html'', ''a/doc.html'', ''a/doc.html''] = [''b/doc.html'', ''a/doc.html''] \<and>
   citation_list [''b/doc.html'', ''a/doc.html'', ''a/doc.html''] = [''doc.html'', ''doc.html''] \<and>
   fst (get_rag_response_stream demo_env demo_world ''pricing'') =
     Inr (Some [''Hello''], ''### Retrieved Sources:\<newline>- doc.html\<newline>- doc.html'')"
proof -
  let ?chunks = "[\<lparr>document = ''first passage'',
       metadata = [''title'' \<mapsto> ''B'', ''source_path'' \<mapsto> ''b/doc.html'']\<rparr>,
      \<lparr>document = ''second passage'',
       metadata = [''title'' \<mapsto> ''A'', ''source_path'' \<mapsto> ''a/doc.html'']\<rparr>,
      \<lparr>document = ''third passage'',
       metadata = [''title'' \<mapsto> ''A'', ''source_path'' \<mapsto> ''a/doc.html'']\<rparr>]"
  have p: "source_paths ?chunks = [''b/doc.html'', ''a/doc.html'', ''a/doc.html'']"
    by (simp add: source_paths_def List.map_filter_simps)
  have k: "keep_first [''b/doc.html'', ''a/doc.html'', ''a/doc.html''] = [''b/doc.html'', ''a/doc.html'']"
    by simp
  have c: "citation_list [''b/doc.html'', ''a/doc.html'', ''a/doc.html''] = [''doc.html'', ''doc.html'']"
    by (simp add: citation_list_def basename_def)
  have a: "embeddings demo_env EMBEDDING_MODEL ''pricing'' = Inr [1]"
    by (simp add: demo_env_def)
  have h: "chat demo_env LLM_MODEL
      (format_prompt
         (join [CHR 0x0A, CHR 0x0A, CHR ''-'', CHR ''-'', CHR ''-'', CHR 0x0A, CHR 0x0A]
            (map document ?chunks)) ''pricing'') = Inr [''Hello'']"
    by (simp add: demo_env_def)
  have ne: "?chunks \<noteq> []" by simp
  from citation_list_of_sources[of ?chunks demo_env "''pricing''" "[1]" demo_world "[''Hello'']"]
    a demo_retrieved ne h
  have "fst (get_rag_response_stream demo_env demo_world ''pricing'') =
          Inr (Some [''Hello''],
               ''### Retrieved Sources:\<newline>''
               @ join [CHR 0x0A] (map (\<lambda>doc. ''- '' @ doc) (citation_list (source_paths ?chunks))))"
    by blast
  then have r: "fst (get_rag_response_stream demo_env demo_world ''pricing'') =
     Inr (Some [''Hello''], ''### Retrieved Sources:\<newline>- doc.html\<newline>- doc.html'')"
    by (simp add: p c)
  from p k c r show ?thesis by blast
qed

section \<open>Claims about clearing the collection\<close>

text \<open>
  What clearing does for every index client that can be opened. An existing collection
  is deleted and created again empty: the status is the success message, the count of
  the new collection is 0 and a search in it returns the empty list without raising. A
  missing collection leaves the world unchanged, and the status is decided by the
  handler from the exception that \<open>get_collection\<close> raised: the informational message
  for the class \<open>ValueError\<close>, the error message for every other class.
\<close>

lemma clear_existing_collection:
  assumes "client_fault e = None" and "collections w COLLECTION_NAME = Some items"
  shows "clear_database_collection e w =
           (Cleared, w\<lparr>collections := (collections w)(COLLECTION_NAME \<mapsto> [])\<rparr>)"
    and "collection_count e (snd (clear_database_collection e w)) COLLECTION_NAME = Inr 0"
    and "search_vector_db e (snd (clear_database_collection e w)) q k = Inr []"
proof -
  show cleared: "clear_database_collection e w =
           (Cleared, w\<lparr>collections := (collections w)(COLLECTION_NAME \<mapsto> [])\<rparr>)"
    using assms
    by (simp add: clear_database_collection_def PersistentClient_def get_collection_def
        delete_collection_def create_collection_def)
  show "collection_count e (snd (clear_database_collection e w)) COLLECTION_NAME = Inr 0"
    by (simp add: cleared collection_count_def get_collection_def)
  show "search_vector_db e (snd (clear_database_collection e w)) q k = Inr []"
    by (simp add: cleared search_vector_db_empty_collection)
qed

lemma clear_missing_collection:
  assumes "client_fault e = None" and "collections w COLLECTION_NAME = None"
  shows "clear_database_collection e w =
           (if exn_class_of (missing_collection e COLLECTION_NAME) = ValueError
            then NothingToClear
            else ClearError (exn_str (missing_collection e COLLECTION_NAME)), w)"
  using assms
  by (simp add: clear_database_collection_def PersistentClient_def get_collection_def
      clear_handler_def)

lemma demo_clear_existing:
  "clear_database_collection demo_env demo_world =
     (Cleared, demo_world\<lparr>collections := (collections demo_world)(COLLECTION_NAME \<mapsto> [])\<rparr>) \<and>
   collection_count demo_env (snd (clear_database_collection demo_env demo_world))
     COLLECTION_NAME = Inr 0 \<and>
   search_vector_db demo_env (snd (clear_database_collection demo_env demo_world)) [1] 5 = Inr []"
proof -
  have cf: "client_fault demo_env = None"
    by (simp add: demo_env_def)
  have a: "collections demo_world COLLECTION_NAME = Some demo_items"
    by (simp add: demo_world_def)
  from clear_existing_collection[OF cf a] show ?thesis by blast
qed

text \<open>
  C9 (clearing recreates the collection empty; clearing a missing collection is a no-op
  that returns the informational message, not an error) does not hold of the code in its
  second half. The informational message is returned by the handler \<open>except
  ValueError\<close>, and the comment above \<open>get_collection\<close> says that the call raises
  \<open>ValueError\<close> for a missing collection; the index client raises \<open>NotFoundError\<close>,
  which that handler does not catch, so the outer handler returns the error message.
  Here the index has no collection: the world is unchanged, and the status is the error.
\<close>

theorem clear_missing_collection_reports_error:
  "clear_database_collection demo_env empty_world =
     (ClearError ''Collection [local_docs] does not exist'', empty_world)"
  by (simp add: clear_database_collection_def PersistentClient_def get_collection_def
      clear_handler_def demo_env_def empty_world_def COLLECTION_NAME_def)

end
